theory Spec2Isabelle
  imports Main
begin

section \<open>The Apple Container adapter of lazydocker (pkg/commands/apple_container.go)\<close>

text \<open>
  The adapter runs the \<^verbatim>\<open>container\<close> command line tool and turns its output
  (one JSON object per line) into \<^verbatim>\<open>Container\<close> and \<^verbatim>\<open>Image\<close> values.
  Go strings are byte sequences, so they are \<^typ>\<open>string\<close> here (a \<^typ>\<open>char\<close> is one byte).
  A Go result pair \<^verbatim>\<open>(T, error)\<close> is a pair whose second component is an
  \<^typ>\<open>'e option\<close> (\<^term>\<open>None\<close> is the nil error); a nil slice is the empty list and a nil
  map is \<^term>\<open>Map.empty\<close>. Pointers to collaborators that the adapter only passes on
  (logger, command executor, translations, configuration, error channel) are opaque
  addresses.
\<close>

subsection \<open>Values\<close>

type_synonym ptr = nat

text \<open>
  What \<^verbatim>\<open>encoding/json\<close> stores into an \<^verbatim>\<open>interface{}\<close>: nil, bool, float64, string,
  \<^verbatim>\<open>[]interface{}\<close> and \<^verbatim>\<open>map[string]interface{}\<close>. The type \<^typ>\<open>'f\<close> stands for float64.
\<close>

datatype 'f json =
    JNull
  | JBool bool
  | JNumber 'f
  | JString string
  | JArray "'f json list"
  | JObject "(string \<times> 'f json) list"

text \<open>
  Errors: \<^typ>\<open>'x\<close> is what \<^verbatim>\<open>OSCommand.RunCommandWithOutput\<close> returns on failure,
  \<^typ>\<open>'j\<close> what \<^verbatim>\<open>json.Unmarshal\<close> returns, and \<open>Errorf msg e\<close> is
  \<^verbatim>\<open>fmt.Errorf(msg + ": %w", e)\<close>.
\<close>

datatype ('x, 'j) error =
    ExecError 'x
  | JsonError 'j
  | Errorf string "('x, 'j) error"

text \<open>
  The diagnostics sink (logrus). An entry keeps the level, the format string of the
  \<^verbatim>\<open>...f\<close> variants and the arguments in the order of the call.
\<close>

datatype level = DebugLevel | InfoLevel | WarnLevel | ErrorLevel

datatype ('x, 'j) arg = AStr string | ANum nat | AErr "('x, 'j) error"

datatype ('x, 'j) entry =
    Print level "('x, 'j) arg list"
  | Printf level string "('x, 'j) arg list"

record AppleContainerCommand =
  Log :: ptr
  OSCommand :: ptr
  Tr :: ptr
  Config :: ptr
  ErrorChan :: ptr

text \<open>
  Modelled from the spec: the declarations of the types \<^verbatim>\<open>Container\<close> and \<^verbatim>\<open>Image\<close>
  are not in apple_container.go. The fields are those of section 3 of the specification
  (identity \<open>ID\<close>, \<open>Name\<close>; descriptive \<open>Image\<close>, \<open>State\<close>; the back-references) together
  with the ones the struct literals of the source name. A field that a Go struct literal
  does not mention has the zero value, the empty string.
\<close>

record Container =
  ID :: string
  Name :: string
  Image :: string
  State :: string
  OSCommand :: ptr
  Log :: ptr
  Tr :: ptr

record Image =
  ID :: string
  Name :: string
  Tag :: string
  OSCommand :: ptr
  Log :: ptr

subsection \<open>strings.TrimSpace and strings.Split\<close>

text \<open>
  \<^verbatim>\<open>strings.TrimSpace\<close> removes the leading and the trailing white space of a string,
  where white space is a UTF-8 encoded code point for which \<^verbatim>\<open>unicode.IsSpace\<close> holds:
  tab, line feed, vertical tab, form feed, carriage return, space, U+0085, U+00A0, U+1680,
  U+2000 to U+200A, U+2028, U+2029, U+202F, U+205F and U+3000. A byte that is not part
  of a valid encoding decodes to U+FFFD, which is not white space.
\<close>

definition space_runes :: "string list" where
  "space_runes =
    [[CHR 0x09], [CHR 0x0A], [CHR 0x0B], [CHR 0x0C], [CHR 0x0D], [CHR 0x20],
     [CHR 0xC2, CHR 0x85], [CHR 0xC2, CHR 0xA0],
     [CHR 0xE1, CHR 0x9A, CHR 0x80],
     [CHR 0xE2, CHR 0x80, CHR 0x80], [CHR 0xE2, CHR 0x80, CHR 0x81],
     [CHR 0xE2, CHR 0x80, CHR 0x82], [CHR 0xE2, CHR 0x80, CHR 0x83],
     [CHR 0xE2, CHR 0x80, CHR 0x84], [CHR 0xE2, CHR 0x80, CHR 0x85],
     [CHR 0xE2, CHR 0x80, CHR 0x86], [CHR 0xE2, CHR 0x80, CHR 0x87],
     [CHR 0xE2, CHR 0x80, CHR 0x88], [CHR 0xE2, CHR 0x80, CHR 0x89],
     [CHR 0xE2, CHR 0x80, CHR 0x8A],
     [CHR 0xE2, CHR 0x80, CHR 0xA8], [CHR 0xE2, CHR 0x80, CHR 0xA9],
     [CHR 0xE2, CHR 0x80, CHR 0xAF],
     [CHR 0xE2, CHR 0x81, CHR 0x9F],
     [CHR 0xE3, CHR 0x80, CHR 0x80]]"

definition HasPrefix :: "string \<Rightarrow> string \<Rightarrow> bool" where
  "HasPrefix s p = (take (length p) s = p)"

definition HasSuffix :: "string \<Rightarrow> string \<Rightarrow> bool" where
  "HasSuffix s p = (drop (length s - length p) s = p)"

definition leading_space :: "string \<Rightarrow> string option" where
  "leading_space s = find (HasPrefix s) space_runes"

definition trailing_space :: "string \<Rightarrow> string option" where
  "trailing_space s = find (HasSuffix s) space_runes"

function TrimLeftSpace :: "string \<Rightarrow> string" where
  "TrimLeftSpace s =
     (case leading_space s of
        None \<Rightarrow> s
      | Some r \<Rightarrow> TrimLeftSpace (drop (length r) s))"
  by pat_completeness auto
termination
proof (relation "measure length")
  show "wf (measure length)" by simp
next
  fix s r :: string
  assume "leading_space s = Some r"
  then have r: "r \<in> set space_runes" and p: "take (length r) s = r"
    by (auto simp: leading_space_def HasPrefix_def find_Some_iff in_set_conv_nth)
  from r have "r \<noteq> []" by (auto simp: space_runes_def)
  with p have "s \<noteq> []" by auto
  with \<open>r \<noteq> []\<close> show "(drop (length r) s, s) \<in> measure length" by simp
qed

function TrimRightSpace :: "string \<Rightarrow> string" where
  "TrimRightSpace s =
     (case trailing_space s of
        None \<Rightarrow> s
      | Some r \<Rightarrow> TrimRightSpace (take (length s - length r) s))"
  by pat_completeness auto
termination
proof (relation "measure length")
  show "wf (measure length)" by simp
next
  fix s r :: string
  assume "trailing_space s = Some r"
  then have r: "r \<in> set space_runes" and p: "drop (length s - length r) s = r"
    by (auto simp: trailing_space_def HasSuffix_def find_Some_iff in_set_conv_nth)
  from r have "r \<noteq> []" by (auto simp: space_runes_def)
  with p have "s \<noteq> []" by auto
  with \<open>r \<noteq> []\<close> show "(take (length s - length r) s, s) \<in> measure length" by simp
qed

declare TrimLeftSpace.simps [simp del]
declare TrimRightSpace.simps [simp del]

definition TrimSpace :: "string \<Rightarrow> string" where
  "TrimSpace s = TrimRightSpace (TrimLeftSpace s)"

text \<open>
  \<^verbatim>\<open>strings.Split(s, sep)\<close> for a separator of one byte, which is how the source calls it.
  As in Go's \<^verbatim>\<open>genSplit\<close>: while the separator occurs, cut the piece before its first
  occurrence and go on behind it; the rest is the last piece.
\<close>

function Split :: "string \<Rightarrow> char \<Rightarrow> string list" where
  "Split s sep =
     (case dropWhile (\<lambda>x. x \<noteq> sep) s of
        [] \<Rightarrow> [s]
      | _ # rest \<Rightarrow> takeWhile (\<lambda>x. x \<noteq> sep) s # Split rest sep)"
  by pat_completeness auto
termination
proof (relation "measure (\<lambda>(s, sep). length s)")
  show "wf (measure (\<lambda>(s, sep). length s))" by simp
next
  fix s :: string and sep x rest
  assume "dropWhile (\<lambda>x. x \<noteq> sep) s = x # rest"
  then have "length (x # rest) \<le> length s"
    using length_dropWhile_le [of "\<lambda>x. x \<noteq> sep" s] by simp
  then show "((rest, sep), (s, sep)) \<in> measure (\<lambda>(s, sep). length s)" by simp
qed

declare Split.simps [simp del]

definition newline :: char where
  "newline = CHR 0x0A"

text \<open>
  The lines the two list parsers iterate over: none when the trimmed output is empty
  (the early return), otherwise the pieces of the trimmed output between line feeds.
\<close>

definition input_lines :: "string \<Rightarrow> string list" where
  "input_lines output =
     (if TrimSpace output = [] then [] else Split (TrimSpace output) newline)"

text \<open>\<^verbatim>\<open>strings.Join(lines, "\n")\<close>: the input that consists of the given lines.\<close>

fun join_lines :: "string list \<Rightarrow> string" where
  "join_lines [] = []"
| "join_lines [l] = l"
| "join_lines (l # ls) = l @ newline # join_lines ls"

subsection \<open>The collaborators\<close>

text \<open>
  \<^verbatim>\<open>json.Unmarshal(data, &v)\<close> belongs to Go's standard library and
  \<^verbatim>\<open>OSCommand.RunCommandWithOutput\<close> runs a process; both are parameters of the model.
  The decoder is called on a nil map and may write to it before it fails, so it is a
  function from the text to the map it leaves behind and the error it returns. The
  executor is a function from the command line to the output and the error.
\<close>

type_synonym ('f, 'j) unmarshal = "string \<Rightarrow> (string \<rightharpoonup> 'f json) \<times> 'j option"

type_synonym 'x run = "string \<Rightarrow> string \<times> 'x option"

type_synonym ('x, 'j) log = "('x, 'j) entry list"

subsection \<open>Containers\<close>

text \<open>The comma-ok type assertion \<^verbatim>\<open>v, _ := data[k].(string)\<close>.\<close>

definition assert_string :: "(string \<rightharpoonup> 'f json) \<Rightarrow> string \<Rightarrow> string" where
  "assert_string data k = (case data k of Some (JString v) \<Rightarrow> v | _ \<Rightarrow> [])"

definition jsonToContainer ::
  "AppleContainerCommand \<Rightarrow> (string \<rightharpoonup> 'f json) \<Rightarrow> ('x, 'j) log \<Rightarrow>
     Container option \<times> ('x, 'j) log" where
  "jsonToContainer c data log =
     (let id = assert_string data ''id'';
          name = assert_string data ''name'';
          image = assert_string data ''image'';
          state = assert_string data ''state''
      in if id = [] \<or> name = [] then
           (None, log @ [Print WarnLevel [AStr ''Container missing required fields (id or name)'']])
         else
           let container = \<lparr>Container.ID = id, Name = name, Image = [], State = [],
                             OSCommand = AppleContainerCommand.OSCommand c,
                             Log = AppleContainerCommand.Log c,
                             Tr = AppleContainerCommand.Tr c\<rparr>;
               mappedState = (if state = ''stopped'' then ''exited'' else state)
           in (Some container,
               log @ [Printf DebugLevel ''Parsed container: ID=%s, Name=%s, Image=%s, State=%s->%s''
                        [AStr id, AStr name, AStr image, AStr state, AStr mappedState]]))"

text \<open>The \<^verbatim>\<open>for _, line := range lines\<close> loop of \<^verbatim>\<open>parseContainerList\<close>.\<close>

fun parseContainerLines ::
  "AppleContainerCommand \<Rightarrow> ('f, 'j) unmarshal \<Rightarrow> string list \<Rightarrow> Container list \<Rightarrow>
     ('x, 'j) log \<Rightarrow> Container list \<times> ('x, 'j) log" where
  "parseContainerLines c Unmarshal [] containers log = (containers, log)"
| "parseContainerLines c Unmarshal (line # lines) containers log =
     (if TrimSpace line = [] then parseContainerLines c Unmarshal lines containers log
      else
        (case Unmarshal line of
           (containerData, Some err) \<Rightarrow>
             parseContainerLines c Unmarshal lines containers
               (log @ [Print WarnLevel [AStr ''Failed to parse container JSON line: '', AStr line,
                                        AStr '' error: '', AErr (JsonError err)]])
         | (containerData, None) \<Rightarrow>
             (case jsonToContainer c containerData log of
                (None, log') \<Rightarrow> parseContainerLines c Unmarshal lines containers log'
              | (Some container, log') \<Rightarrow>
                  parseContainerLines c Unmarshal lines (containers @ [container]) log')))"

definition parseContainerList ::
  "AppleContainerCommand \<Rightarrow> ('f, 'j) unmarshal \<Rightarrow> string \<Rightarrow> ('x, 'j) log \<Rightarrow>
     (Container list \<times> ('x, 'j) error option) \<times> ('x, 'j) log" where
  "parseContainerList c Unmarshal output log =
     (if TrimSpace output = [] then (([], None), log)
      else
        let lines = Split (TrimSpace output) newline;
            (containers, log') = parseContainerLines c Unmarshal lines [] log
        in ((containers, None), log'))"

definition GetContainers ::
  "AppleContainerCommand \<Rightarrow> 'x run \<Rightarrow> ('f, 'j) unmarshal \<Rightarrow> ('x, 'j) log \<Rightarrow>
     (Container list \<times> ('x, 'j) error option) \<times> ('x, 'j) log" where
  "GetContainers c RunCommandWithOutput Unmarshal log =
     (let log1 = log @ [Print InfoLevel [AStr ''Getting containers from Apple Container'']]
      in case RunCommandWithOutput ''container ps --format json'' of
           (output, Some err) \<Rightarrow>
             (([], Some (Errorf ''failed to get containers'' (ExecError err))),
              log1 @ [Print ErrorLevel [AStr ''Failed to get containers from Apple Container: '',
                                        AErr (ExecError err)]])
         | (output, None) \<Rightarrow>
             (case parseContainerList c Unmarshal output log1 of
                ((containers, Some err), log2) \<Rightarrow>
                  (([], Some (Errorf ''failed to parse container list'' err)),
                   log2 @ [Print ErrorLevel [AStr ''Failed to parse container list: '', AErr err]])
              | ((containers, None), log2) \<Rightarrow>
                  ((containers, None),
                   log2 @ [Printf InfoLevel ''Found %d containers'' [ANum (length containers)]])))"

subsection \<open>Images\<close>

definition jsonToImage ::
  "AppleContainerCommand \<Rightarrow> (string \<rightharpoonup> 'f json) \<Rightarrow> ('x, 'j) log \<Rightarrow>
     Image option \<times> ('x, 'j) log" where
  "jsonToImage c data log =
     (let id = assert_string data ''id'';
          name = assert_string data ''name'';
          tag = assert_string data ''tag''
      in if id = [] then
           (None, log @ [Print WarnLevel [AStr ''Image missing required ID field'']])
         else
           let image = \<lparr>Image.ID = id, Name = name, Tag = tag,
                         OSCommand = AppleContainerCommand.OSCommand c,
                         Log = AppleContainerCommand.Log c\<rparr>
           in (Some image,
               log @ [Printf DebugLevel ''Parsed image: ID=%s, Name=%s, Tag=%s''
                        [AStr id, AStr name, AStr tag]]))"

text \<open>The \<^verbatim>\<open>for _, line := range lines\<close> loop of \<^verbatim>\<open>parseImageList\<close>.\<close>

fun parseImageLines ::
  "AppleContainerCommand \<Rightarrow> ('f, 'j) unmarshal \<Rightarrow> string list \<Rightarrow> Image list \<Rightarrow>
     ('x, 'j) log \<Rightarrow> Image list \<times> ('x, 'j) log" where
  "parseImageLines c Unmarshal [] images log = (images, log)"
| "parseImageLines c Unmarshal (line # lines) images log =
     (if TrimSpace line = [] then parseImageLines c Unmarshal lines images log
      else
        (case Unmarshal line of
           (imageData, Some err) \<Rightarrow>
             parseImageLines c Unmarshal lines images
               (log @ [Print WarnLevel [AStr ''Failed to parse image JSON line: '', AStr line,
                                        AStr '' error: '', AErr (JsonError err)]])
         | (imageData, None) \<Rightarrow>
             (case jsonToImage c imageData log of
                (None, log') \<Rightarrow> parseImageLines c Unmarshal lines images log'
              | (Some img, log') \<Rightarrow>
                  parseImageLines c Unmarshal lines (images @ [img]) log')))"

definition parseImageList ::
  "AppleContainerCommand \<Rightarrow> ('f, 'j) unmarshal \<Rightarrow> string \<Rightarrow> ('x, 'j) log \<Rightarrow>
     (Image list \<times> ('x, 'j) error option) \<times> ('x, 'j) log" where
  "parseImageList c Unmarshal output log =
     (if TrimSpace output = [] then (([], None), log)
      else
        let lines = Split (TrimSpace output) newline;
            (images, log') = parseImageLines c Unmarshal lines [] log
        in ((images, None), log'))"

definition GetImages ::
  "AppleContainerCommand \<Rightarrow> 'x run \<Rightarrow> ('f, 'j) unmarshal \<Rightarrow> ('x, 'j) log \<Rightarrow>
     (Image list \<times> ('x, 'j) error option) \<times> ('x, 'j) log" where
  "GetImages c RunCommandWithOutput Unmarshal log =
     (let log1 = log @ [Print InfoLevel [AStr ''Getting images from Apple Container'']]
      in case RunCommandWithOutput ''container images list --format json'' of
           (output, Some err) \<Rightarrow>
             (([], Some (Errorf ''failed to get images'' (ExecError err))),
              log1 @ [Print ErrorLevel [AStr ''Failed to get images from Apple Container: '',
                                        AErr (ExecError err)]])
         | (output, None) \<Rightarrow>
             (case parseImageList c Unmarshal output log1 of
                ((images, Some err), log2) \<Rightarrow>
                  (([], Some (Errorf ''failed to parse image list'' err)),
                   log2 @ [Print ErrorLevel [AStr ''Failed to parse image list: '', AErr err]])
              | ((images, None), log2) \<Rightarrow>
                  ((images, None),
                   log2 @ [Printf InfoLevel ''Found %d images'' [ANum (length images)]])))"

text \<open>
  What one line contributes to the result of the loop: nothing when it is blank, cannot be
  decoded or lacks a mandatory field, otherwise its entity.
\<close>

definition lineContainer ::
  "AppleContainerCommand \<Rightarrow> ('f, 'j) unmarshal \<Rightarrow> string \<Rightarrow> Container option" where
  "lineContainer c Unmarshal line =
     (if TrimSpace line = [] then None
      else case Unmarshal line of
             (data, Some err) \<Rightarrow> None
           | (data, None) \<Rightarrow> fst (jsonToContainer c data ([] :: (unit, 'j) log)))"

definition lineImage ::
  "AppleContainerCommand \<Rightarrow> ('f, 'j) unmarshal \<Rightarrow> string \<Rightarrow> Image option" where
  "lineImage c Unmarshal line =
     (if TrimSpace line = [] then None
      else case Unmarshal line of
             (data, Some err) \<Rightarrow> None
           | (data, None) \<Rightarrow> fst (jsonToImage c data ([] :: (unit, 'j) log)))"

subsection \<open>System status\<close>

definition SystemStatus ::
  "AppleContainerCommand \<Rightarrow> 'x run \<Rightarrow> ('f, 'j) unmarshal \<Rightarrow> ('x, 'j) log \<Rightarrow>
     ((string \<rightharpoonup> 'f json) \<times> ('x, 'j) error option) \<times> ('x, 'j) log" where
  "SystemStatus c RunCommandWithOutput Unmarshal log =
     (let log1 = log @ [Print InfoLevel [AStr ''Getting Apple Container system status'']]
      in case RunCommandWithOutput ''container system status --format json'' of
           (output, Some err) \<Rightarrow>
             ((Map.empty, Some (Errorf ''failed to get system status'' (ExecError err))), log1)
         | (output, None) \<Rightarrow>
             (case Unmarshal output of
                (status, Some err) \<Rightarrow>
                  ((Map.empty, Some (Errorf ''failed to parse system status'' (JsonError err))), log1)
              | (status, None) \<Rightarrow> ((status, None), log1)))"

subsection \<open>Test data\<close>

text \<open>
  The adapter value and the input lines of the repository's tests
  (\<^verbatim>\<open>TestParseContainerList\<close>, \<^verbatim>\<open>TestParseImageList\<close>), and \<^verbatim>\<open>json.Unmarshal\<close> on
  these lines. The theorems below hold for every decoder; this one only instantiates
  them, and it reports every text outside its table as undecodable.
\<close>

definition cmd :: AppleContainerCommand where
  "cmd = \<lparr>AppleContainerCommand.Log = 1, OSCommand = 2, Tr = 3, Config = 4, ErrorChan = 5\<rparr>"

definition container_line :: string where
  \<open>container_line = ''{"id":"abc123","name":"test-container","image":"nginx","state":"running"}''\<close>

definition container_line_1 :: string where
  \<open>container_line_1 = ''{"id":"abc123","name":"test-container-1","image":"nginx","state":"running"}''\<close>

definition container_line_2 :: string where
  \<open>container_line_2 = ''{"id":"def456","name":"test-container-2","image":"redis","state":"stopped"}''\<close>

definition container_line_no_id :: string where
  \<open>container_line_no_id = ''{"image":"nginx","state":"running"}''\<close>

definition image_line_1 :: string where
  \<open>image_line_1 = ''{"id":"img123","name":"nginx","tag":"latest"}''\<close>

definition image_line_2 :: string where
  \<open>image_line_2 = ''{"id":"img456","name":"redis","tag":"6-alpine"}''\<close>

definition image_line_no_id :: string where
  \<open>image_line_no_id = ''{"name":"nginx","tag":"latest"}''\<close>

definition invalid_line :: string where
  \<open>invalid_line = ''{"invalid json}''\<close>

definition test_lines :: "(string \<times> (string \<times> int json) list) list" where
  "test_lines =
    [(container_line,
        [(''id'', JString ''abc123''), (''name'', JString ''test-container''),
         (''image'', JString ''nginx''), (''state'', JString ''running'')]),
     (container_line_1,
        [(''id'', JString ''abc123''), (''name'', JString ''test-container-1''),
         (''image'', JString ''nginx''), (''state'', JString ''running'')]),
     (container_line_2,
        [(''id'', JString ''def456''), (''name'', JString ''test-container-2''),
         (''image'', JString ''redis''), (''state'', JString ''stopped'')]),
     (container_line_no_id,
        [(''image'', JString ''nginx''), (''state'', JString ''running'')]),
     (image_line_1,
        [(''id'', JString ''img123''), (''name'', JString ''nginx''), (''tag'', JString ''latest'')]),
     (image_line_2,
        [(''id'', JString ''img456''), (''name'', JString ''redis''), (''tag'', JString ''6-alpine'')]),
     (image_line_no_id,
        [(''name'', JString ''nginx''), (''tag'', JString ''latest'')])]"

definition test_Unmarshal :: "(int, string) unmarshal" where
  "test_Unmarshal line =
     (case map_of test_lines line of
        Some members \<Rightarrow> (map_of members, None)
      | None \<Rightarrow> (Map.empty, Some ''unexpected end of JSON input''))"

section \<open>Properties\<close>

subsection \<open>The entities do not depend on the log, and each line contributes on its own\<close>

lemma fst_jsonToContainer:
  "fst (jsonToContainer c data log) =
     (if assert_string data ''id'' = [] \<or> assert_string data ''name'' = [] then None
      else Some \<lparr>Container.ID = assert_string data ''id'', Name = assert_string data ''name'',
                  Image = [], State = [],
                  OSCommand = AppleContainerCommand.OSCommand c,
                  Log = AppleContainerCommand.Log c,
                  Tr = AppleContainerCommand.Tr c\<rparr>)"
  by (simp add: jsonToContainer_def Let_def)

lemma fst_jsonToImage:
  "fst (jsonToImage c data log) =
     (if assert_string data ''id'' = [] then None
      else Some \<lparr>Image.ID = assert_string data ''id'', Name = assert_string data ''name'',
                  Tag = assert_string data ''tag'',
                  OSCommand = AppleContainerCommand.OSCommand c,
                  Log = AppleContainerCommand.Log c\<rparr>)"
  by (simp add: jsonToImage_def Let_def)

lemma parseContainerLines_fst:
  fixes U :: "('f, 'j) unmarshal" and log :: "('x, 'j) log"
  shows "fst (parseContainerLines c U ls acc log) = acc @ List.map_filter (lineContainer c U) ls"
proof (induction ls arbitrary: acc log)
  case Nil
  show ?case by (simp add: map_filter_simps)
next
  case (Cons l ls)
  show ?case
  proof (cases "TrimSpace l = []")
    case True
    then show ?thesis by (simp add: Cons.IH map_filter_simps lineContainer_def)
  next
    case False
    obtain d e where U: "U l = (d, e)" by (cases "U l")
    show ?thesis
    proof (cases e)
      case (Some err)
      with False U show ?thesis by (simp add: Cons.IH map_filter_simps lineContainer_def)
    next
      case None
      obtain r log' where J: "jsonToContainer c d log = (r, log')"
        by (cases "jsonToContainer c d log")
      then have "fst (jsonToContainer c d ([] :: (unit, 'j) log)) = r"
        using fst_jsonToContainer [of c d log] fst_jsonToContainer [of c d "[] :: (unit, 'j) log"]
        by simp
      with False U None have lc: "lineContainer c U l = r"
        by (simp add: lineContainer_def)
      from False U None J show ?thesis
        by (cases r) (simp_all add: Cons.IH map_filter_simps lc)
    qed
  qed
qed

lemma parseImageLines_fst:
  fixes U :: "('f, 'j) unmarshal" and log :: "('x, 'j) log"
  shows "fst (parseImageLines c U ls acc log) = acc @ List.map_filter (lineImage c U) ls"
proof (induction ls arbitrary: acc log)
  case Nil
  show ?case by (simp add: map_filter_simps)
next
  case (Cons l ls)
  show ?case
  proof (cases "TrimSpace l = []")
    case True
    then show ?thesis by (simp add: Cons.IH map_filter_simps lineImage_def)
  next
    case False
    obtain d e where U: "U l = (d, e)" by (cases "U l")
    show ?thesis
    proof (cases e)
      case (Some err)
      with False U show ?thesis by (simp add: Cons.IH map_filter_simps lineImage_def)
    next
      case None
      obtain r log' where J: "jsonToImage c d log = (r, log')"
        by (cases "jsonToImage c d log")
      then have "fst (jsonToImage c d ([] :: (unit, 'j) log)) = r"
        using fst_jsonToImage [of c d log] fst_jsonToImage [of c d "[] :: (unit, 'j) log"]
        by simp
      with False U None have lc: "lineImage c U l = r"
        by (simp add: lineImage_def)
      from False U None J show ?thesis
        by (cases r) (simp_all add: Cons.IH map_filter_simps lc)
    qed
  qed
qed

lemma parseContainerList_fst:
  "fst (parseContainerList c U output log) =
     (List.map_filter (lineContainer c U) (input_lines output), None)"
  using parseContainerLines_fst [of c U "Split (TrimSpace output) newline" "[]" log]
  by (auto simp: parseContainerList_def input_lines_def map_filter_simps split: prod.splits)

lemma parseImageList_fst:
  "fst (parseImageList c U output log) =
     (List.map_filter (lineImage c U) (input_lines output), None)"
  using parseImageLines_fst [of c U "Split (TrimSpace output) newline" "[]" log]
  by (auto simp: parseImageList_def input_lines_def map_filter_simps split: prod.splits)

lemma map_filter_append:
  "List.map_filter f (xs @ ys) = List.map_filter f xs @ List.map_filter f ys"
  by (simp add: List.map_filter_def)


lemma set_map_filter:
  "set (List.map_filter f xs) = {y. \<exists>x \<in> set xs. f x = Some y}"
  by (induction xs) (auto split: option.splits)

lemma lineContainer_Some:
  assumes "lineContainer c U l = Some ct"
  shows "Container.ID ct \<noteq> [] \<and> Container.Name ct \<noteq> []"
  using assms
  by (auto simp: lineContainer_def fst_jsonToContainer split: if_splits prod.splits option.splits)

lemma lineImage_Some:
  assumes "lineImage c U l = Some im"
  shows "Image.ID im \<noteq> []"
  using assms
  by (auto simp: lineImage_def fst_jsonToImage split: if_splits prod.splits option.splits)

lemma lineContainer_undecodable:
  "snd (U l) \<noteq> None \<Longrightarrow> lineContainer c U l = None"
  by (auto simp: lineContainer_def split: prod.splits option.splits)

lemma lineImage_undecodable:
  "snd (U l) \<noteq> None \<Longrightarrow> lineImage c U l = None"
  by (auto simp: lineImage_def split: prod.splits option.splits)

lemma map_filter_all_Some:
  "\<forall>x \<in> set xs. f x = Some (g x) \<Longrightarrow> List.map_filter f xs = map g xs"
  by (induction xs) simp_all

lemma lineContainer_good:
  assumes "TrimSpace l \<noteq> []" and "snd (U l) = None"
    and "assert_string (fst (U l)) ''id'' \<noteq> []" and "assert_string (fst (U l)) ''name'' \<noteq> []"
  shows "lineContainer c U l =
           Some \<lparr>Container.ID = assert_string (fst (U l)) ''id'',
                 Name = assert_string (fst (U l)) ''name'', Image = [], State = [],
                 OSCommand = AppleContainerCommand.OSCommand c,
                 Log = AppleContainerCommand.Log c,
                 Tr = AppleContainerCommand.Tr c\<rparr>"
  using assms by (cases "U l") (simp add: lineContainer_def fst_jsonToContainer)

lemma lineImage_good:
  assumes "TrimSpace l \<noteq> []" and "snd (U l) = None"
    and "assert_string (fst (U l)) ''id'' \<noteq> []"
  shows "lineImage c U l =
           Some \<lparr>Image.ID = assert_string (fst (U l)) ''id'',
                 Name = assert_string (fst (U l)) ''name'',
                 Tag = assert_string (fst (U l)) ''tag'',
                 OSCommand = AppleContainerCommand.OSCommand c,
                 Log = AppleContainerCommand.Log c\<rparr>"
  using assms by (cases "U l") (simp add: lineImage_def fst_jsonToImage)

subsection \<open>White space, lines and joining\<close>

text \<open>
  The encodings in \<^const>\<open>space_runes\<close> form a prefix code (the first byte fixes the
  length), and only the line feed itself contains a line feed. So a text made of white
  space trims to nothing, and lines without surrounding white space and without line
  feeds, joined by line feeds, are the lines the parsers iterate over.
\<close>

lemma space_runes_facts:
  "\<forall>r \<in> set space_runes. r \<noteq> [] \<and> newline \<notin> set (tl r) \<and> newline \<notin> set (butlast r)
      \<and> length r = (if hd r = CHR 0xC2 then 2
                     else if hd r \<in> {CHR 0xE1, CHR 0xE2, CHR 0xE3} then 3 else 1)"
  by (simp add: space_runes_def newline_def)

lemma space_rune_nonempty: "r \<in> set space_runes \<Longrightarrow> r \<noteq> []"
  using space_runes_facts by blast

lemma space_rune_unique:
  assumes "r \<in> set space_runes" and "r' \<in> set space_runes" and "HasPrefix (r @ s) r'"
  shows "r' = r"
proof -
  let ?w = "\<lambda>c. if c = CHR 0xC2 then 2 else if c \<in> {CHR 0xE1, CHR 0xE2, CHR 0xE3} then 3 else (1::nat)"
  from assms(1,2) space_runes_facts
  have ne: "r \<noteq> []" "r' \<noteq> []" and w: "length r = ?w (hd r)" "length r' = ?w (hd r')"
    by blast+
  from assms(3) have t: "take (length r') (r @ s) = r'" by (simp add: HasPrefix_def)
  then have "hd (take (length r') (r @ s)) = hd r'" by simp
  with ne have "hd r = hd r'" by (cases r; cases r') auto
  with w have "length r' = length r" by simp
  with t show ?thesis by simp
qed

lemma find_unique:
  assumes "x \<in> set xs" and "P x" and "\<forall>y \<in> set xs. y \<noteq> x \<longrightarrow> \<not> P y"
  shows "find P xs = Some x"
  using assms by (induction xs) auto

lemma leading_space_rune:
  assumes "r \<in> set space_runes"
  shows "leading_space (r @ s) = Some r"
  unfolding leading_space_def
proof (rule find_unique [OF assms])
  show "HasPrefix (r @ s) r" by (simp add: HasPrefix_def)
next
  show "\<forall>y \<in> set space_runes. y \<noteq> r \<longrightarrow> \<not> HasPrefix (r @ s) y"
    using assms space_rune_unique by blast
qed

lemma leading_space_Nil: "leading_space [] = None"
  using space_rune_nonempty by (auto simp: leading_space_def find_None_iff HasPrefix_def)

lemma trailing_space_Nil: "trailing_space [] = None"
  using space_rune_nonempty by (auto simp: trailing_space_def find_None_iff HasSuffix_def)

lemma TrimLeftSpace_rune:
  "r \<in> set space_runes \<Longrightarrow> TrimLeftSpace (r @ s) = TrimLeftSpace s"
  by (subst TrimLeftSpace.simps) (simp add: leading_space_rune)

lemma TrimLeftSpace_stable: "leading_space s = None \<Longrightarrow> TrimLeftSpace s = s"
  by (subst TrimLeftSpace.simps) simp

lemma TrimRightSpace_stable: "trailing_space s = None \<Longrightarrow> TrimRightSpace s = s"
  by (subst TrimRightSpace.simps) simp

lemma TrimSpace_stable:
  "leading_space s = None \<Longrightarrow> trailing_space s = None \<Longrightarrow> TrimSpace s = s"
  by (simp add: TrimSpace_def TrimLeftSpace_stable TrimRightSpace_stable)

lemma TrimSpace_only_space:
  assumes "set ts \<subseteq> set space_runes"
  shows "TrimSpace (concat ts) = []"
proof -
  from assms have "TrimLeftSpace (concat ts) = []"
    by (induction ts) (simp_all add: TrimLeftSpace_stable leading_space_Nil TrimLeftSpace_rune)
  then show ?thesis by (simp add: TrimSpace_def TrimRightSpace_stable trailing_space_Nil)
qed

lemma length_TrimLeftSpace: "length (TrimLeftSpace s) \<le> length s"
proof (induction s rule: TrimLeftSpace.induct)
  case (1 s)
  show ?case
  proof (cases "leading_space s")
    case None
    then show ?thesis by (simp add: TrimLeftSpace_stable)
  next
    case (Some r)
    with 1 have "length (TrimLeftSpace (drop (length r) s)) \<le> length (drop (length r) s)" by simp
    with Some show ?thesis by (subst TrimLeftSpace.simps) simp
  qed
qed

lemma length_TrimRightSpace: "length (TrimRightSpace s) \<le> length s"
proof (induction s rule: TrimRightSpace.induct)
  case (1 s)
  show ?case
  proof (cases "trailing_space s")
    case None
    then show ?thesis by (simp add: TrimRightSpace_stable)
  next
    case (Some r)
    with 1 have "length (TrimRightSpace (take (length s - length r) s))
                   \<le> length (take (length s - length r) s)" by simp
    with Some show ?thesis by (subst TrimRightSpace.simps) simp
  qed
qed

lemma find_SomeD: "find P xs = Some x \<Longrightarrow> x \<in> set xs \<and> P x"
  by (induction xs) (auto split: if_splits)

lemma leading_space_SomeD:
  assumes "leading_space s = Some r"
  shows "r \<in> set space_runes" and "HasPrefix s r" and "r \<noteq> []" and "s \<noteq> []"
proof -
  from assms show r: "r \<in> set space_runes" and p: "HasPrefix s r"
    unfolding leading_space_def by (auto dest: find_SomeD)
  from r show "r \<noteq> []" by (rule space_rune_nonempty)
  with p show "s \<noteq> []" by (auto simp: HasPrefix_def)
qed

lemma trailing_space_SomeD:
  assumes "trailing_space s = Some r"
  shows "r \<in> set space_runes" and "HasSuffix s r" and "r \<noteq> []" and "s \<noteq> []"
proof -
  from assms show r: "r \<in> set space_runes" and p: "HasSuffix s r"
    unfolding trailing_space_def by (auto dest: find_SomeD)
  from r show "r \<noteq> []" by (rule space_rune_nonempty)
  with p show "s \<noteq> []" by (auto simp: HasSuffix_def)
qed

lemma TrimSpace_fixed:
  assumes "TrimSpace l = l"
  shows "leading_space l = None" and "trailing_space l = None"
proof -
  show L: "leading_space l = None"
  proof (rule ccontr)
    assume "leading_space l \<noteq> None"
    then obtain r where r: "leading_space l = Some r" by auto
    then have "TrimLeftSpace l = TrimLeftSpace (drop (length r) l)"
      by (subst TrimLeftSpace.simps) simp
    moreover have "length (TrimLeftSpace (drop (length r) l)) \<le> length (drop (length r) l)"
      by (rule length_TrimLeftSpace)
    moreover from leading_space_SomeD(3,4) [OF r] have "length (drop (length r) l) < length l"
      by simp
    ultimately have "length (TrimLeftSpace l) < length l" by simp
    moreover have "length (TrimSpace l) \<le> length (TrimLeftSpace l)"
      unfolding TrimSpace_def by (rule length_TrimRightSpace)
    ultimately show False using assms by simp
  qed
  show "trailing_space l = None"
  proof (rule ccontr)
    assume "trailing_space l \<noteq> None"
    then obtain r where r: "trailing_space l = Some r" by auto
    then have "TrimRightSpace l = TrimRightSpace (take (length l - length r) l)"
      by (subst TrimRightSpace.simps) simp
    moreover have "length (TrimRightSpace (take (length l - length r) l))
                     \<le> length (take (length l - length r) l)"
      by (rule length_TrimRightSpace)
    moreover from trailing_space_SomeD(3,4) [OF r]
    have "length (take (length l - length r) l) < length l"
      by simp
    ultimately have "length (TrimRightSpace l) < length l" by simp
    with assms L show False by (simp add: TrimSpace_def TrimLeftSpace_stable)
  qed
qed


lemma leading_space_before_newline:
  assumes "leading_space l = None" and "l \<noteq> []"
  shows "leading_space (l @ newline # rest) = None"
proof -
  have "\<not> HasPrefix (l @ newline # rest) r" if r: "r \<in> set space_runes" for r
  proof
    assume "HasPrefix (l @ newline # rest) r"
    then have t: "take (length r) (l @ newline # rest) = r" by (simp add: HasPrefix_def)
    from assms(1) r have nl: "\<not> HasPrefix l r"
      by (auto simp: leading_space_def find_None_iff)
    show False
    proof (cases "length r \<le> length l")
      case True
      with t have "take (length r) l = r" by simp
      with nl show False by (simp add: HasPrefix_def)
    next
      case False
      then obtain k where k: "length r - length l = Suc k" by (cases "length r - length l") auto
      with t have "r = l @ newline # take k rest" by simp
      with assms(2) have "newline \<in> set (tl r)" by (cases l) auto
      with r space_runes_facts show False by blast
    qed
  qed
  then show ?thesis by (auto simp: leading_space_def find_None_iff)
qed

lemma trailing_space_after_newline:
  assumes "trailing_space l = None" and "l \<noteq> []"
  shows "trailing_space (pre @ newline # l) = None"
proof -
  have "\<not> HasSuffix (pre @ newline # l) r" if r: "r \<in> set space_runes" for r
  proof
    assume "HasSuffix (pre @ newline # l) r"
    then have t: "drop (length (pre @ newline # l) - length r) (pre @ newline # l) = r"
      by (simp add: HasSuffix_def)
    from assms(1) r have nl: "\<not> HasSuffix l r"
      by (auto simp: trailing_space_def find_None_iff)
    show False
    proof (cases "length r \<le> length l")
      case True
      then have "length (pre @ newline # l) - length r = length (pre @ [newline]) + (length l - length r)"
        by simp
      with t have "drop (length (pre @ [newline]) + (length l - length r)) ((pre @ [newline]) @ l) = r"
        by simp
      then have "drop (length l - length r) l = r"
        by (simp only: drop_append length_append) simp
      with nl show False by (simp add: HasSuffix_def)
    next
      case False
      then have "length (pre @ newline # l) - length r \<le> length pre" by simp
      with t have "r = drop (length (pre @ newline # l) - length r) pre @ newline # l"
        by simp
      then obtain p where "r = p @ newline # l" by blast
      with assms(2) have "newline \<in> set (butlast r)" by (simp add: butlast_append)
      with r space_runes_facts show False by blast
    qed
  qed
  then show ?thesis by (auto simp: trailing_space_def find_None_iff)
qed

lemma join_lines_Cons: "ls \<noteq> [] \<Longrightarrow> join_lines (l # ls) = l @ newline # join_lines ls"
  by (cases ls) simp_all

lemma join_lines_nonempty: "ls \<noteq> [] \<Longrightarrow> \<forall>l \<in> set ls. l \<noteq> [] \<Longrightarrow> join_lines ls \<noteq> []"
  by (cases ls rule: join_lines.cases) auto

lemma leading_space_join_lines:
  assumes "ls \<noteq> []" and "\<forall>l \<in> set ls. l \<noteq> [] \<and> leading_space l = None"
  shows "leading_space (join_lines ls) = None"
  using assms by (cases ls rule: join_lines.cases) (auto simp: leading_space_before_newline)

lemma trailing_space_join_lines:
  assumes "ls \<noteq> []" and "\<forall>l \<in> set ls. l \<noteq> [] \<and> trailing_space l = None"
  shows "trailing_space (join_lines ls) = None"
  using assms
proof (induction ls rule: join_lines.induct)
  case 1
  then show ?case by simp
next
  case (2 l)
  then show ?case by simp
next
  case (3 l l' ls)
  then have "trailing_space (join_lines (l' # ls)) = None" by simp
  moreover from 3 have "join_lines (l' # ls) \<noteq> []" by (intro join_lines_nonempty) auto
  ultimately show ?case by (simp add: trailing_space_after_newline)
qed

lemma Split_no_sep: "sep \<notin> set l \<Longrightarrow> Split l sep = [l]"
proof -
  assume "sep \<notin> set l"
  then have "dropWhile (\<lambda>x. x \<noteq> sep) l = []" by (auto simp: dropWhile_eq_Nil_conv)
  then show ?thesis by (subst Split.simps) (simp only: list.case)
qed

lemma Split_first: "sep \<notin> set l \<Longrightarrow> Split (l @ sep # rest) sep = l # Split rest sep"
proof -
  assume a: "sep \<notin> set l"
  then have "dropWhile (\<lambda>x. x \<noteq> sep) (l @ sep # rest) = sep # rest"
    by (induction l) auto
  moreover from a have "takeWhile (\<lambda>x. x \<noteq> sep) (l @ sep # rest) = l"
    by (induction l) auto
  ultimately show ?thesis by (subst Split.simps) (simp only: list.case)
qed

lemma Split_join_lines:
  assumes "ls \<noteq> []" and "\<forall>l \<in> set ls. newline \<notin> set l"
  shows "Split (join_lines ls) newline = ls"
  using assms
proof (induction ls rule: join_lines.induct)
  case 1
  then show ?case by simp
next
  case (2 l)
  then show ?case by (simp add: Split_no_sep)
next
  case (3 l l' ls)
  then show ?case by (simp add: Split_first)
qed

lemma input_lines_join_lines:
  assumes "\<forall>l \<in> set ls. newline \<notin> set l \<and> l \<noteq> [] \<and> TrimSpace l = l"
  shows "input_lines (join_lines ls) = ls"
proof (cases "ls = []")
  case True
  then show ?thesis
    by (simp add: input_lines_def TrimSpace_stable leading_space_Nil trailing_space_Nil)
next
  case False
  from assms have "\<forall>l \<in> set ls. l \<noteq> [] \<and> leading_space l = None"
    and "\<forall>l \<in> set ls. l \<noteq> [] \<and> trailing_space l = None"
    by (auto dest: TrimSpace_fixed)
  with False have "TrimSpace (join_lines ls) = join_lines ls"
    by (intro TrimSpace_stable leading_space_join_lines trailing_space_join_lines)
  moreover from False assms have "join_lines ls \<noteq> []" by (intro join_lines_nonempty) auto
  moreover from False assms have "Split (join_lines ls) newline = ls"
    by (intro Split_join_lines) auto
  ultimately show ?thesis by (simp add: input_lines_def)
qed

subsection \<open>Malformed lines\<close>

text \<open>
  \<^bold>\<open>C1\<close>. Let the parser's lines for an input contain a line \<open>bad\<close> that
  \<^verbatim>\<open>json.Unmarshal\<close> rejects, and let a second input have the same lines without it.
  Then \<^verbatim>\<open>parseContainerList\<close> and \<^verbatim>\<open>parseImageList\<close> return for the first input what
  they return for the second, the same entities in the same order, and the error is nil:
  the rejected line is dropped and changes nothing else.
\<close>

theorem malformed_line_dropped:
  fixes U :: "('f, 'j) unmarshal" and log log' :: "('x, 'j) log"
  assumes "input_lines output = before @ bad # after"
    and "snd (U bad) \<noteq> None"
    and "input_lines output' = before @ after"
  shows "fst (parseContainerList c U output log) = fst (parseContainerList c U output' log') \<and>
         snd (fst (parseContainerList c U output log)) = None \<and>
         fst (parseImageList c U output log) = fst (parseImageList c U output' log') \<and>
         snd (fst (parseImageList c U output log)) = None"
  using assms
  by (simp add: parseContainerList_fst parseImageList_fst map_filter_append
      lineContainer_undecodable lineImage_undecodable)

theorem malformed_line_dropped_witness:
  "input_lines (join_lines [container_line_1, invalid_line, container_line_2]) =
      [container_line_1] @ invalid_line # [container_line_2] \<and>
   snd (test_Unmarshal invalid_line) \<noteq> None \<and>
   input_lines (join_lines [container_line_1, container_line_2]) =
      [container_line_1] @ [container_line_2] \<and>
   fst (parseContainerList cmd test_Unmarshal
          (join_lines [container_line_1, invalid_line, container_line_2]) ([] :: (unit, string) log)) =
   fst (parseContainerList cmd test_Unmarshal
          (join_lines [container_line_1, container_line_2]) ([] :: (unit, string) log)) \<and>
   map Container.ID (fst (fst (parseContainerList cmd test_Unmarshal
          (join_lines [container_line_1, container_line_2]) ([] :: (unit, string) log)))) =
     [''abc123'', ''def456'']"
proof -
  have 1: "input_lines (join_lines [container_line_1, invalid_line, container_line_2]) =
      [container_line_1] @ invalid_line # [container_line_2]"
    by code_simp
  have 2: "snd (test_Unmarshal invalid_line) \<noteq> None"
    by code_simp
  have 3: "input_lines (join_lines [container_line_1, container_line_2]) =
      [container_line_1] @ [container_line_2]"
    by code_simp
  have 4: "map Container.ID (fst (fst (parseContainerList cmd test_Unmarshal
          (join_lines [container_line_1, container_line_2]) ([] :: (unit, string) log)))) =
     [''abc123'', ''def456'']"
    by code_simp
  have "fst (parseContainerList cmd test_Unmarshal
          (join_lines [container_line_1, invalid_line, container_line_2]) ([] :: (unit, string) log)) =
        fst (parseContainerList cmd test_Unmarshal
          (join_lines [container_line_1, container_line_2]) ([] :: (unit, string) log))"
    using malformed_line_dropped [where U = test_Unmarshal and bad = invalid_line
        and before = "[container_line_1]" and after = "[container_line_2]", OF 1 2 3]
    by blast
  with 1 2 3 4 show ?thesis by blast
qed

subsection \<open>The invariant of the returned entities\<close>

text \<open>
  \<^bold>\<open>C7\<close>. For every input, every container that \<^verbatim>\<open>parseContainerList\<close> returns has
  a non-empty \<open>ID\<close> and a non-empty \<open>Name\<close>, and every image that \<^verbatim>\<open>parseImageList\<close>
  returns has a non-empty \<open>ID\<close>.
\<close>

theorem entities_have_identity:
  fixes U :: "('f, 'j) unmarshal" and log :: "('x, 'j) log"
  shows "(\<forall>ct \<in> set (fst (fst (parseContainerList c U output log))).
            Container.ID ct \<noteq> [] \<and> Container.Name ct \<noteq> []) \<and>
         (\<forall>im \<in> set (fst (fst (parseImageList c U output log))). Image.ID im \<noteq> [])"
  by (auto simp: parseContainerList_fst parseImageList_fst set_map_filter
      dest: lineContainer_Some lineImage_Some)

theorem entities_have_identity_witness:
  "map Container.ID (fst (fst (parseContainerList cmd test_Unmarshal
       (join_lines [container_line_1, container_line_no_id, container_line_2])
       ([] :: (unit, string) log)))) = [''abc123'', ''def456''] \<and>
   list_all (\<lambda>ct. Container.ID ct \<noteq> [] \<and> Container.Name ct \<noteq> [])
     (fst (fst (parseContainerList cmd test_Unmarshal
       (join_lines [container_line_1, container_line_no_id, container_line_2])
       ([] :: (unit, string) log)))) \<and>
   map Image.ID (fst (fst (parseImageList cmd test_Unmarshal
       (join_lines [image_line_1, image_line_no_id, image_line_2])
       ([] :: (unit, string) log)))) = [''img123'', ''img456''] \<and>
   list_all (\<lambda>im. Image.ID im \<noteq> [])
     (fst (fst (parseImageList cmd test_Unmarshal
       (join_lines [image_line_1, image_line_no_id, image_line_2])
       ([] :: (unit, string) log))))"
proof -
  have 1: "map Container.ID (fst (fst (parseContainerList cmd test_Unmarshal
       (join_lines [container_line_1, container_line_no_id, container_line_2])
       ([] :: (unit, string) log)))) = [''abc123'', ''def456'']"
    by code_simp
  have 2: "map Image.ID (fst (fst (parseImageList cmd test_Unmarshal
       (join_lines [image_line_1, image_line_no_id, image_line_2])
       ([] :: (unit, string) log)))) = [''img123'', ''img456'']"
    by code_simp
  from 1 2 show ?thesis
    using entities_have_identity [of cmd test_Unmarshal
        "join_lines [container_line_1, container_line_no_id, container_line_2]"
        "[] :: (unit, string) log"]
      entities_have_identity [of cmd test_Unmarshal
        "join_lines [image_line_1, image_line_no_id, image_line_2]"
        "[] :: (unit, string) log"]
    by (simp only: list_all_iff) blast
qed

subsection \<open>The status document\<close>

text \<open>
  \<^bold>\<open>C8\<close>. When the status command ran, \<^verbatim>\<open>SystemStatus\<close> decodes its whole output as one
  document. If \<^verbatim>\<open>json.Unmarshal\<close> fails, the result is the nil map and an error that wraps
  the decoder's, whatever the decoder had already written to the map; if it succeeds, the
  result is the decoded map as it is and the nil error.
\<close>

theorem system_status_decode:
  fixes U :: "('f, 'j) unmarshal" and log :: "('x, 'j) log" and run :: "'x run"
  assumes "run ''container system status --format json'' = (output, None)"
  shows "(snd (U output) = Some err \<longrightarrow>
            fst (SystemStatus c run U log) =
              (Map.empty, Some (Errorf ''failed to parse system status'' (JsonError err)))) \<and>
         (snd (U output) = None \<longrightarrow>
            fst (SystemStatus c run U log) = (fst (U output), None))"
  using assms
  by (auto simp: SystemStatus_def Let_def split: prod.splits option.splits)

theorem system_status_decode_witness:
  "snd (test_Unmarshal invalid_line) = Some ''unexpected end of JSON input'' \<and>
   fst (SystemStatus cmd (\<lambda>command. (invalid_line, None)) test_Unmarshal
         ([] :: (unit, string) log)) =
     (Map.empty, Some (Errorf ''failed to parse system status''
                         (JsonError ''unexpected end of JSON input''))) \<and>
   snd (test_Unmarshal container_line) = None \<and>
   fst (SystemStatus cmd (\<lambda>command. (container_line, None)) test_Unmarshal
         ([] :: (unit, string) log)) = (fst (test_Unmarshal container_line), None) \<and>
   fst (test_Unmarshal container_line) ''state'' = Some (JString ''running'')"
proof -
  have 1: "snd (test_Unmarshal invalid_line) = Some ''unexpected end of JSON input''"
    by code_simp
  have 2: "snd (test_Unmarshal container_line) = None"
    by code_simp
  have 3: "fst (test_Unmarshal container_line) ''state'' = Some (JString ''running'')"
    by code_simp
  have r1: "(\<lambda>command. (invalid_line, None :: unit option)) ''container system status --format json'' =
              (invalid_line, None)"
    by simp
  have r2: "(\<lambda>command. (container_line, None :: unit option)) ''container system status --format json'' =
              (container_line, None)"
    by simp
  from system_status_decode [OF r1, of test_Unmarshal "''unexpected end of JSON input''" cmd "[]"]
       system_status_decode [OF r2, of test_Unmarshal "''unexpected end of JSON input''" cmd "[]"]
       1 2 3
  show ?thesis by simp
qed

subsection \<open>No hidden state\<close>

text \<open>
  \<^bold>\<open>C9\<close>. The only state the list parsers touch is the diagnostics sink, and what they
  return does not depend on it: two calls on the same input return the same entities and
  error, from any two states of the sink, in particular when the second call starts from
  the state the first one left.
\<close>

theorem list_parsing_repeatable:
  fixes U :: "('f, 'j) unmarshal" and log log' :: "('x, 'j) log"
  shows "fst (parseContainerList c U output log') = fst (parseContainerList c U output log) \<and>
         fst (parseImageList c U output log') = fst (parseImageList c U output log) \<and>
         fst (parseContainerList c U output (snd (parseContainerList c U output log))) =
           fst (parseContainerList c U output log) \<and>
         fst (parseImageList c U output (snd (parseImageList c U output log))) =
           fst (parseImageList c U output log)"
  by (simp add: parseContainerList_fst parseImageList_fst)

subsection \<open>Parsing never fails\<close>

text \<open>
  \<^bold>\<open>C10\<close>. For every input the error of \<^verbatim>\<open>parseContainerList\<close> and of
  \<^verbatim>\<open>parseImageList\<close> is nil. So the error of \<^verbatim>\<open>GetContainers\<close> and of \<^verbatim>\<open>GetImages\<close>
  is the error of the external command, wrapped, and nil when the command ran.
\<close>

theorem parsing_never_fails:
  fixes U :: "('f, 'j) unmarshal" and log :: "('x, 'j) log" and run :: "'x run"
  shows "snd (fst (parseContainerList c U output log)) = None \<and>
         snd (fst (parseImageList c U output log)) = None \<and>
         snd (fst (GetContainers c run U log)) =
           map_option (\<lambda>err. Errorf ''failed to get containers'' (ExecError err))
             (snd (run ''container ps --format json'')) \<and>
         snd (fst (GetImages c run U log)) =
           map_option (\<lambda>err. Errorf ''failed to get images'' (ExecError err))
             (snd (run ''container images list --format json''))"
proof -
  have pc: "snd (fst (parseContainerList c U out l)) = None" for out and l :: "('x, 'j) log"
    by (simp add: parseContainerList_fst)
  have pi: "snd (fst (parseImageList c U out l)) = None" for out and l :: "('x, 'j) log"
    by (simp add: parseImageList_fst)
  have gc: "snd (fst (GetContainers c run U log)) =
           map_option (\<lambda>err. Errorf ''failed to get containers'' (ExecError err))
             (snd (run ''container ps --format json''))"
  proof -
    obtain out e where R: "run ''container ps --format json'' = (out, e)"
      by (cases "run ''container ps --format json''")
    show ?thesis
    proof (cases e)
      case (Some err)
      with R show ?thesis by (simp add: GetContainers_def)
    next
      case None
      let ?log1 = "log @ [Print InfoLevel [AStr ''Getting containers from Apple Container'']]"
      obtain cs pe l2 where P: "parseContainerList c U out ?log1 = ((cs, pe), l2)"
        by (cases "parseContainerList c U out ?log1") auto
      with pc [of out ?log1] have "pe = None" by simp
      with R None P show ?thesis by (simp add: GetContainers_def)
    qed
  qed
  have gi: "snd (fst (GetImages c run U log)) =
           map_option (\<lambda>err. Errorf ''failed to get images'' (ExecError err))
             (snd (run ''container images list --format json''))"
  proof -
    obtain out e where R: "run ''container images list --format json'' = (out, e)"
      by (cases "run ''container images list --format json''")
    show ?thesis
    proof (cases e)
      case (Some err)
      with R show ?thesis by (simp add: GetImages_def)
    next
      case None
      let ?log1 = "log @ [Print InfoLevel [AStr ''Getting images from Apple Container'']]"
      obtain ims pe l2 where P: "parseImageList c U out ?log1 = ((ims, pe), l2)"
        by (cases "parseImageList c U out ?log1") auto
      with pi [of out ?log1] have "pe = None" by simp
      with R None P show ?thesis by (simp add: GetImages_def)
    qed
  qed
  from pc pi gc gi show ?thesis by blast
qed

subsection \<open>Blank input\<close>

text \<open>
  \<^bold>\<open>C5\<close>. For every input that is empty or consists of white space only (a
  concatenation of encoded white space code points), \<^verbatim>\<open>parseContainerList\<close> and
  \<^verbatim>\<open>parseImageList\<close> return the empty sequence and the nil error, and log nothing.
\<close>

theorem blank_output_gives_nothing:
  fixes U :: "('f, 'j) unmarshal" and log :: "('x, 'j) log"
  assumes "set ts \<subseteq> set space_runes"
  shows "parseContainerList c U (concat ts) log = (([], None), log) \<and>
         parseImageList c U (concat ts) log = (([], None), log)"
  using TrimSpace_only_space [OF assms]
  by (simp add: parseContainerList_def parseImageList_def)

theorem blank_output_gives_nothing_witness:
  "set [[CHR 0x20], [CHR 0x0A], [CHR 0x09], [CHR 0xC2, CHR 0xA0], [CHR 0x0D], [CHR 0x0A]]
     \<subseteq> set space_runes \<and>
   parseContainerList cmd test_Unmarshal
     [CHR 0x20, CHR 0x0A, CHR 0x09, CHR 0xC2, CHR 0xA0, CHR 0x0D, CHR 0x0A]
     ([] :: (unit, string) log) = (([], None), []) \<and>
   parseImageList cmd test_Unmarshal
     [CHR 0x20, CHR 0x0A, CHR 0x09, CHR 0xC2, CHR 0xA0, CHR 0x0D, CHR 0x0A]
     ([] :: (unit, string) log) = (([], None), []) \<and>
   parseContainerList cmd test_Unmarshal [] ([] :: (unit, string) log) = (([], None), []) \<and>
   parseImageList cmd test_Unmarshal [] ([] :: (unit, string) log) = (([], None), [])"
proof -
  have 1: "set [[CHR 0x20], [CHR 0x0A], [CHR 0x09], [CHR 0xC2, CHR 0xA0], [CHR 0x0D], [CHR 0x0A]]
     \<subseteq> set space_runes"
    by (simp add: space_runes_def)
  have 2: "set ([] :: string list) \<subseteq> set space_runes"
    by simp
  from blank_output_gives_nothing [OF 1, of cmd test_Unmarshal "[] :: (unit, string) log"]
       blank_output_gives_nothing [OF 2, of cmd test_Unmarshal "[] :: (unit, string) log"] 1
  show ?thesis by simp
qed

subsection \<open>Many lines\<close>

text \<open>
  \<^bold>\<open>C6\<close>. For every list of \<open>N\<close> lines that are well formed (no line feed inside,
  not empty, no surrounding white space, accepted by \<^verbatim>\<open>json.Unmarshal\<close>), joined by
  line feeds: if every record carries \<open>id\<close> and \<open>name\<close> as non-empty strings,
  \<^verbatim>\<open>parseContainerList\<close> returns \<open>N\<close> containers and the \<open>i\<close>-th one has the \<open>id\<close> and
  the \<open>name\<close> of the \<open>i\<close>-th line; if every record carries \<open>id\<close> as a non-empty string,
  \<^verbatim>\<open>parseImageList\<close> returns \<open>N\<close> images and the \<open>i\<close>-th one has the \<open>id\<close>, \<open>name\<close> and
  \<open>tag\<close> of the \<open>i\<close>-th line. The error is nil.
\<close>

theorem well_formed_lines_in_order:
  fixes U :: "('f, 'j) unmarshal" and log :: "('x, 'j) log"
  assumes "\<forall>l \<in> set ls. newline \<notin> set l \<and> l \<noteq> [] \<and> TrimSpace l = l \<and> snd (U l) = None"
  shows "((\<forall>l \<in> set ls. assert_string (fst (U l)) ''id'' \<noteq> [] \<and>
                         assert_string (fst (U l)) ''name'' \<noteq> []) \<longrightarrow>
            snd (fst (parseContainerList c U (join_lines ls) log)) = None \<and>
            length (fst (fst (parseContainerList c U (join_lines ls) log))) = length ls \<and>
            map Container.ID (fst (fst (parseContainerList c U (join_lines ls) log))) =
              map (\<lambda>l. assert_string (fst (U l)) ''id'') ls \<and>
            map Container.Name (fst (fst (parseContainerList c U (join_lines ls) log))) =
              map (\<lambda>l. assert_string (fst (U l)) ''name'') ls) \<and>
         ((\<forall>l \<in> set ls. assert_string (fst (U l)) ''id'' \<noteq> []) \<longrightarrow>
            snd (fst (parseImageList c U (join_lines ls) log)) = None \<and>
            length (fst (fst (parseImageList c U (join_lines ls) log))) = length ls \<and>
            map Image.ID (fst (fst (parseImageList c U (join_lines ls) log))) =
              map (\<lambda>l. assert_string (fst (U l)) ''id'') ls \<and>
            map Image.Name (fst (fst (parseImageList c U (join_lines ls) log))) =
              map (\<lambda>l. assert_string (fst (U l)) ''name'') ls \<and>
            map Image.Tag (fst (fst (parseImageList c U (join_lines ls) log))) =
              map (\<lambda>l. assert_string (fst (U l)) ''tag'') ls)"
proof -
  from assms have lines: "input_lines (join_lines ls) = ls"
    by (intro input_lines_join_lines) auto
  from assms have nb: "\<forall>l \<in> set ls. TrimSpace l \<noteq> [] \<and> snd (U l) = None" by auto
  have containers:
    "List.map_filter (lineContainer c U) ls =
       map (\<lambda>l. \<lparr>Container.ID = assert_string (fst (U l)) ''id'',
                   Name = assert_string (fst (U l)) ''name'', Image = [], State = [],
                   OSCommand = AppleContainerCommand.OSCommand c,
                   Log = AppleContainerCommand.Log c,
                   Tr = AppleContainerCommand.Tr c\<rparr>) ls"
    if "\<forall>l \<in> set ls. assert_string (fst (U l)) ''id'' \<noteq> [] \<and>
                         assert_string (fst (U l)) ''name'' \<noteq> []"
    using that nb by (intro map_filter_all_Some) (auto intro: lineContainer_good)
  have images:
    "List.map_filter (lineImage c U) ls =
       map (\<lambda>l. \<lparr>Image.ID = assert_string (fst (U l)) ''id'',
                   Name = assert_string (fst (U l)) ''name'',
                   Tag = assert_string (fst (U l)) ''tag'',
                   OSCommand = AppleContainerCommand.OSCommand c,
                   Log = AppleContainerCommand.Log c\<rparr>) ls"
    if "\<forall>l \<in> set ls. assert_string (fst (U l)) ''id'' \<noteq> []"
    using that nb by (intro map_filter_all_Some) (auto intro: lineImage_good)
  show ?thesis
    by (simp add: parseContainerList_fst parseImageList_fst lines containers images o_def)
qed

theorem well_formed_lines_in_order_witness:
  "list_all (\<lambda>l. newline \<notin> set l \<and> l \<noteq> [] \<and> TrimSpace l = l \<and>
                  snd (test_Unmarshal l) = None \<and>
                  assert_string (fst (test_Unmarshal l)) ''id'' \<noteq> [] \<and>
                  assert_string (fst (test_Unmarshal l)) ''name'' \<noteq> [])
     [container_line_1, container_line_2] \<and>
   map Container.ID (fst (fst (parseContainerList cmd test_Unmarshal
       (join_lines [container_line_1, container_line_2]) ([] :: (unit, string) log)))) =
     [''abc123'', ''def456''] \<and>
   map Container.Name (fst (fst (parseContainerList cmd test_Unmarshal
       (join_lines [container_line_1, container_line_2]) ([] :: (unit, string) log)))) =
     [''test-container-1'', ''test-container-2''] \<and>
   list_all (\<lambda>l. newline \<notin> set l \<and> l \<noteq> [] \<and> TrimSpace l = l \<and>
                  snd (test_Unmarshal l) = None \<and>
                  assert_string (fst (test_Unmarshal l)) ''id'' \<noteq> [])
     [image_line_1, image_line_2] \<and>
   map Image.ID (fst (fst (parseImageList cmd test_Unmarshal
       (join_lines [image_line_1, image_line_2]) ([] :: (unit, string) log)))) =
     [''img123'', ''img456''] \<and>
   map Image.Tag (fst (fst (parseImageList cmd test_Unmarshal
       (join_lines [image_line_1, image_line_2]) ([] :: (unit, string) log)))) =
     [''latest'', ''6-alpine'']"
proof -
  have c1: "\<forall>l \<in> set [container_line_1, container_line_2].
              newline \<notin> set l \<and> l \<noteq> [] \<and> TrimSpace l = l \<and> snd (test_Unmarshal l) = None"
    by code_simp
  have c2: "\<forall>l \<in> set [container_line_1, container_line_2].
              assert_string (fst (test_Unmarshal l)) ''id'' \<noteq> [] \<and>
              assert_string (fst (test_Unmarshal l)) ''name'' \<noteq> []"
    by code_simp
  have c3: "map (\<lambda>l. assert_string (fst (test_Unmarshal l)) ''id'')
              [container_line_1, container_line_2] = [''abc123'', ''def456'']"
    by code_simp
  have c4: "map (\<lambda>l. assert_string (fst (test_Unmarshal l)) ''name'')
              [container_line_1, container_line_2] = [''test-container-1'', ''test-container-2'']"
    by code_simp
  have i1: "\<forall>l \<in> set [image_line_1, image_line_2].
              newline \<notin> set l \<and> l \<noteq> [] \<and> TrimSpace l = l \<and> snd (test_Unmarshal l) = None"
    by code_simp
  have i2: "\<forall>l \<in> set [image_line_1, image_line_2].
              assert_string (fst (test_Unmarshal l)) ''id'' \<noteq> []"
    by code_simp
  have i3: "map (\<lambda>l. assert_string (fst (test_Unmarshal l)) ''id'')
              [image_line_1, image_line_2] = [''img123'', ''img456'']"
    by code_simp
  have i4: "map (\<lambda>l. assert_string (fst (test_Unmarshal l)) ''tag'')
              [image_line_1, image_line_2] = [''latest'', ''6-alpine'']"
    by code_simp
  from well_formed_lines_in_order [OF c1, of cmd "[] :: (unit, string) log"] c2
  have c: "map Container.ID (fst (fst (parseContainerList cmd test_Unmarshal
             (join_lines [container_line_1, container_line_2]) ([] :: (unit, string) log)))) =
           map (\<lambda>l. assert_string (fst (test_Unmarshal l)) ''id'')
             [container_line_1, container_line_2]"
    "map Container.Name (fst (fst (parseContainerList cmd test_Unmarshal
             (join_lines [container_line_1, container_line_2]) ([] :: (unit, string) log)))) =
           map (\<lambda>l. assert_string (fst (test_Unmarshal l)) ''name'')
             [container_line_1, container_line_2]"
    by blast+
  from well_formed_lines_in_order [OF i1, of cmd "[] :: (unit, string) log"] i2
  have i: "map Image.ID (fst (fst (parseImageList cmd test_Unmarshal
             (join_lines [image_line_1, image_line_2]) ([] :: (unit, string) log)))) =
           map (\<lambda>l. assert_string (fst (test_Unmarshal l)) ''id'')
             [image_line_1, image_line_2]"
    "map Image.Tag (fst (fst (parseImageList cmd test_Unmarshal
             (join_lines [image_line_1, image_line_2]) ([] :: (unit, string) log)))) =
           map (\<lambda>l. assert_string (fst (test_Unmarshal l)) ''tag'')
             [image_line_1, image_line_2]"
    by blast+
  from c1 c2 have hc: "list_all (\<lambda>l. newline \<notin> set l \<and> l \<noteq> [] \<and> TrimSpace l = l \<and>
                  snd (test_Unmarshal l) = None \<and>
                  assert_string (fst (test_Unmarshal l)) ''id'' \<noteq> [] \<and>
                  assert_string (fst (test_Unmarshal l)) ''name'' \<noteq> [])
     [container_line_1, container_line_2]"
    unfolding list_all_iff by blast
  from i1 i2 have hi: "list_all (\<lambda>l. newline \<notin> set l \<and> l \<noteq> [] \<and> TrimSpace l = l \<and>
                  snd (test_Unmarshal l) = None \<and>
                  assert_string (fst (test_Unmarshal l)) ''id'' \<noteq> [])
     [image_line_1, image_line_2]"
    unfolding list_all_iff by blast
  from hc hi c [unfolded c3 c4] i [unfolded i3 i4] show ?thesis by blast
qed

end
